theory Spec2Isabelle
  imports Main "HOL-Library.Sublist" "HOL-Library.Word"
begin

unbundle bit_operations_syntax

section \<open>Strings and paths, as the script uses them\<close>

text \<open>
  The script \<^verbatim>\<open>box_manager.py\<close> works on Python strings and on POSIX paths. Strings are
  modelled as \<^typ>\<open>string\<close> (ASCII), and the few library functions the script calls
  (\<^verbatim>\<open>str.split\<close>, \<^verbatim>\<open>str.replace\<close>, \<^verbatim>\<open>str.startswith\<close>, \<^verbatim>\<open>os.path.join\<close>,
  \<^verbatim>\<open>os.path.normpath\<close>, \<^verbatim>\<open>os.path.abspath\<close>) are written out after \<^verbatim>\<open>posixpath.py\<close>.
\<close>

type_synonym path = string

text \<open>\<^verbatim>\<open>s.split(sep)\<close> for a one-character separator: never the empty list.\<close>

fun str_split :: "char \<Rightarrow> string \<Rightarrow> string list" where
  "str_split sep [] = [[]]"
| "str_split sep (c # cs) =
     (if c = sep then [] # str_split sep cs
      else (case str_split sep cs of
              [] \<Rightarrow> [[c]]
            | part # parts \<Rightarrow> (c # part) # parts))"


text \<open>\<^verbatim>\<open>s.replace(old, new)\<close> for one-character \<^verbatim>\<open>old\<close> and \<^verbatim>\<open>new\<close>.\<close>

definition str_replace :: "char \<Rightarrow> char \<Rightarrow> string \<Rightarrow> string" where
  "str_replace old new s = map (\<lambda>c. if c = old then new else c) s"

text \<open>\<^verbatim>\<open>s.startswith(p)\<close>.\<close>

definition startswith :: "string \<Rightarrow> string \<Rightarrow> bool" where
  "startswith s p = prefix p s"

text \<open>\<^verbatim>\<open>s.endswith(p)\<close>.\<close>

definition endswith :: "string \<Rightarrow> string \<Rightarrow> bool" where
  "endswith s p = suffix p s"

text \<open>\<^verbatim>\<open>os.path.join(a, b)\<close> (posixpath, two arguments).\<close>

definition os_path_join :: "path \<Rightarrow> path \<Rightarrow> path" where
  "os_path_join a b =
     (if startswith b ''/'' then b
      else if a = [] \<or> endswith a ''/'' then a @ b
      else a @ ''/'' @ b)"





section \<open>Configuration and the naming of a box\<close>

definition INSTALL_DIR :: path where
  "INSTALL_DIR = ''/opt/vagrant_boxes''"





definition escape_box_name :: "string \<Rightarrow> string" where
  "escape_box_name box_name = str_replace CHR ''/'' CHR ''_'' box_name"

definition get_box_dir_name :: "string \<Rightarrow> string" where
  "get_box_dir_name box_name = escape_box_name box_name"

definition get_box_dir_path :: "string \<Rightarrow> path" where
  "get_box_dir_path box_name =
     (let boxes_dir = os_path_join INSTALL_DIR ''boxes''
      in os_path_join boxes_dir (get_box_dir_name box_name))"

definition get_box_json_path :: "string \<Rightarrow> path" where
  "get_box_json_path box_name = get_box_dir_path box_name @ ''.json''"

section \<open>The manifest of a box\<close>

text \<open>
  The manifest (the "box JSON file") is a JSON object with the keys \<^verbatim>\<open>description\<close>,
  \<^verbatim>\<open>name\<close> and \<^verbatim>\<open>versions\<close>; a version has a \<^verbatim>\<open>version\<close> and a list of
  \<^verbatim>\<open>providers\<close>; a provider has \<^verbatim>\<open>name\<close>, \<^verbatim>\<open>url\<close>, \<^verbatim>\<open>checksum_type\<close> and
  \<^verbatim>\<open>checksum\<close>. The script reads the \<^verbatim>\<open>version\<close> through \<^verbatim>\<open>int(...)\<close>, which takes a JSON
  string as well as a JSON number, so the field keeps both forms apart.
\<close>

datatype json_value = JString string | JNumber int

record provider =
  provider_name :: string
  url :: string
  checksum_type :: string
  checksum :: string

record version_entry =
  version :: json_value
  providers :: "provider list"

record box_file_dict =
  description :: string
  name :: string
  versions :: "version_entry list"

text \<open>
  What the script can raise. The five \<^verbatim>\<open>raise Exception(msg)\<close> of the script are kept
  apart by the message, with the values the message is formatted from.
\<close>

datatype error =
    Box_json_missing path              \<comment> \<open>\<^verbatim>\<open>Box JSON file '%s' does not exist\<close>\<close>
  | Box_dir_outside path path          \<comment> \<open>\<^verbatim>\<open>Box target directory '%s' not in '%s'\<close>\<close>
  | Target_file_outside path path      \<comment> \<open>\<^verbatim>\<open>Target box file '%s' not in '%s'\<close>\<close>
  | Build_dir_outside path path        \<comment> \<open>\<^verbatim>\<open>Build directory '%s' not in '%s'\<close>\<close>
  | Template_dir_world_readable path   \<comment> \<open>\<^verbatim>\<open>Build template directory '%s' world readable!\<close>\<close>
  | ValueError                         \<comment> \<open>\<^verbatim>\<open>int(...)\<close> of a string that is no integer; \<^verbatim>\<open>json.load\<close>\<close>
  | IndexError                         \<comment> \<open>\<^verbatim>\<open>version['providers'][0]\<close> of an empty list\<close>
  | IOError path                       \<comment> \<open>\<^verbatim>\<open>open\<close> and the copies of \<^verbatim>\<open>shutil\<close>\<close>
  | OSError path                       \<comment> \<open>\<^verbatim>\<open>os.remove\<close>, \<^verbatim>\<open>os.makedirs\<close>, \<^verbatim>\<open>os.stat\<close>\<close>
  | ShutilError path path              \<comment> \<open>\<^verbatim>\<open>shutil.copyfile\<close> of a file onto itself\<close>

subsection \<open>\<^verbatim>\<open>int(...)\<close> and \<^verbatim>\<open>str(...)\<close>\<close>

definition is_space :: "char \<Rightarrow> bool" where
  "is_space c = (c \<in> set [CHR '' '', CHR 0x09, CHR 0x0A, CHR 0x0B, CHR 0x0C, CHR 0x0D])"

definition str_strip :: "string \<Rightarrow> string" where
  "str_strip s = rev (dropWhile is_space (rev (dropWhile is_space s)))"

definition is_digit :: "char \<Rightarrow> bool" where
  "is_digit c = (48 \<le> (of_char c :: nat) \<and> (of_char c :: nat) \<le> 57)"

definition digits_value :: "string \<Rightarrow> int" where
  "digits_value ds = foldl (\<lambda>acc c. 10 * acc + (int (of_char c) - 48)) 0 ds"

text \<open>
  \<^verbatim>\<open>int(s)\<close> of a string, base ten: surrounding white space, one optional sign, and
  at least one decimal digit; anything else raises \<^verbatim>\<open>ValueError\<close>. (Digit grouping
  with underscores, which later interpreters accept, and digits outside ASCII are
  not modelled: the model raises for them.)
\<close>

definition int_of_str :: "string \<Rightarrow> error + int" where
  "int_of_str s =
     (let t = str_strip s;
          negative = (t \<noteq> [] \<and> hd t = CHR ''-'');
          ds = (if t \<noteq> [] \<and> (hd t = CHR ''-'' \<or> hd t = CHR ''+'') then tl t else t)
      in if ds \<noteq> [] \<and> list_all is_digit ds
         then Inr (if negative then - digits_value ds else digits_value ds)
         else Inl ValueError)"

text \<open>\<^verbatim>\<open>int(version['version'])\<close>.\<close>

fun py_int :: "json_value \<Rightarrow> error + int" where
  "py_int (JNumber i) = Inr i"
| "py_int (JString s) = int_of_str s"

fun str_of_nat :: "nat \<Rightarrow> string" where
  "str_of_nat k =
     (if k < 10 then [char_of (48 + k)] else str_of_nat (k div 10) @ [char_of (48 + k mod 10)])"

declare str_of_nat.simps [simp del]

text \<open>\<^verbatim>\<open>str(i)\<close> of an integer.\<close>

definition py_str :: "int \<Rightarrow> string" where
  "py_str i = (if i < 0 then CHR ''-'' # str_of_nat (nat (- i)) else str_of_nat (nat i))"

text \<open>\<^verbatim>\<open>xs[0:k]\<close>: a negative \<^verbatim>\<open>k\<close> counts from the end of the list.\<close>

definition py_slice_to :: "'a list \<Rightarrow> int \<Rightarrow> 'a list" where
  "py_slice_to xs k =
     (if k < 0 then take (nat (int (length xs) + k)) xs else take (nat k) xs)"

section \<open>The file system\<close>

text \<open>
  The script acts on the file system through \<^verbatim>\<open>os\<close>, \<^verbatim>\<open>shutil\<close> and \<^verbatim>\<open>open\<close>. The file
  system is a map from paths to nodes, with the two facts of the process the script
  depends on (the creation mask and the working directory). A path names a node by
  its text: links, and the resolution of \<^verbatim>\<open>.\<close> and \<^verbatim>\<open>..\<close> by the operating system, are
  outside the model, and so are permission checks and full disks.

  A run of a function is its result (the exception raised, or the value returned)
  together with the file systems it leaves behind, one after each mutation, in order:
  a run with no mutation has the empty list.
\<close>

type_synonym byte = "8 word"

type_synonym mode = "32 word"

datatype node = Directory mode | File mode "byte list"

record filesystem =
  nodes :: "path \<Rightarrow> node option"
  umask :: mode
  cwd :: path

type_synonym 'a run = "(error + 'a) \<times> filesystem list"

text \<open>The file system a run ends in, from the one it started in.\<close>

definition final :: "filesystem \<Rightarrow> filesystem list \<Rightarrow> filesystem" where
  "final fs trace = last (fs # trace)"

text \<open>Sequencing: an exception ends the run, with the mutations made so far.\<close>

definition bind_run :: "filesystem \<Rightarrow> 'a run \<Rightarrow> ('a \<Rightarrow> filesystem \<Rightarrow> 'b run) \<Rightarrow> 'b run" where
  "bind_run fs m f =
     (case m of
        (Inl e, trace) \<Rightarrow> (Inl e, trace)
      | (Inr x, trace) \<Rightarrow>
          (case f x (final fs trace) of (r, trace') \<Rightarrow> (r, trace @ trace')))"

definition os_path_exists :: "filesystem \<Rightarrow> path \<Rightarrow> bool" where
  "os_path_exists fs p = (nodes fs p \<noteq> None)"

definition os_path_isfile :: "filesystem \<Rightarrow> path \<Rightarrow> bool" where
  "os_path_isfile fs p = (case nodes fs p of Some (File m d) \<Rightarrow> True | _ \<Rightarrow> False)"

text \<open>\<^verbatim>\<open>open(p, 'r')\<close> and reading the whole file.\<close>

definition read_file :: "filesystem \<Rightarrow> path \<Rightarrow> (byte list) run" where
  "read_file fs p =
     (case nodes fs p of Some (File m d) \<Rightarrow> (Inr d, []) | _ \<Rightarrow> (Inl (IOError p), []))"

text \<open>
  \<^verbatim>\<open>open(p, 'w')\<close> and writing the whole file: a new file gets its mode from the
  creation mask, an old one keeps its mode, a directory cannot be opened.
\<close>

definition write_file :: "filesystem \<Rightarrow> path \<Rightarrow> byte list \<Rightarrow> unit run" where
  "write_file fs p d =
     (case nodes fs p of
        Some (Directory m) \<Rightarrow> (Inl (IOError p), [])
      | Some (File m old) \<Rightarrow> (Inr (), [fs\<lparr>nodes := (nodes fs)(p \<mapsto> File m d)\<rparr>])
      | None \<Rightarrow> (Inr (), [fs\<lparr>nodes := (nodes fs)(p \<mapsto> File (438 AND NOT (umask fs)) d)\<rparr>]))"

text \<open>\<^verbatim>\<open>os.remove(p)\<close>: only a file can be removed.\<close>

definition os_remove :: "filesystem \<Rightarrow> path \<Rightarrow> unit run" where
  "os_remove fs p =
     (case nodes fs p of
        Some (File m d) \<Rightarrow> (Inr (), [fs\<lparr>nodes := (nodes fs)(p := None)\<rparr>])
      | _ \<Rightarrow> (Inl (OSError p), []))"







section \<open>Pruning: \<^verbatim>\<open>prune_boxes\<close>\<close>

text \<open>
  \<^verbatim>\<open>json.load\<close> and \<^verbatim>\<open>json.dump\<close> belong to the standard library; the functions that
  use them take the two as parameters \<open>json_load\<close> (the document a text holds, or
  \<open>None\<close> where \<^verbatim>\<open>json.load\<close> raises \<^verbatim>\<open>ValueError\<close>) and \<open>json_dump\<close> (the text
  written for a document), and nothing is assumed of them.
\<close>

type_synonym json_loader = "byte list \<Rightarrow> box_file_dict option"

type_synonym json_dumper = "box_file_dict \<Rightarrow> byte list"

record prune_args =
  args_box :: string
  args_n :: int

record box_to_prune =
  prune_version :: int
  prune_filename :: path

text \<open>The first loop of \<^verbatim>\<open>prune_boxes\<close>: the version numbers, in the order of the list.\<close>

fun collect_versions :: "version_entry list \<Rightarrow> int list \<Rightarrow> error + int list" where
  "collect_versions [] acc = Inr acc"
| "collect_versions (v # vs) acc =
     (case py_int (version v) of
        Inl e \<Rightarrow> Inl e
      | Inr version_num \<Rightarrow> collect_versions vs (acc @ [version_num]))"

text \<open>
  The second loop: a version whose number is kept goes to \<^verbatim>\<open>versions_to_keep\<close>, any
  other to \<^verbatim>\<open>boxes_to_prune\<close> with the file named by the last segment of the URL of its
  first provider.
\<close>

fun partition_versions ::
  "path \<Rightarrow> int list \<Rightarrow> version_entry list \<Rightarrow> version_entry list \<Rightarrow> box_to_prune list
     \<Rightarrow> error + (version_entry list \<times> box_to_prune list)" where
  "partition_versions box_dir keep_versions [] versions_to_keep boxes_to_prune =
     Inr (versions_to_keep, boxes_to_prune)"
| "partition_versions box_dir keep_versions (v # vs) versions_to_keep boxes_to_prune =
     (case py_int (version v) of
        Inl e \<Rightarrow> Inl e
      | Inr version_num \<Rightarrow>
          if version_num \<in> set keep_versions
          then partition_versions box_dir keep_versions vs (versions_to_keep @ [v]) boxes_to_prune
          else (case providers v of
                  [] \<Rightarrow> Inl IndexError
                | p # ps \<Rightarrow>
                    let box_url = url p;
                        box_filename = last (str_split CHR ''/'' box_url)
                    in partition_versions box_dir keep_versions vs versions_to_keep
                         (boxes_to_prune @
                            [\<lparr>prune_version = version_num,
                              prune_filename = os_path_join box_dir box_filename\<rparr>])))"

text \<open>The last loop: the files are removed in order; the first failure ends the run.\<close>

fun remove_boxes :: "filesystem \<Rightarrow> box_to_prune list \<Rightarrow> unit run" where
  "remove_boxes fs [] = (Inr (), [])"
| "remove_boxes fs (b # bs) =
     bind_run fs (os_remove fs (prune_filename b)) (\<lambda>u fs'. remove_boxes fs' bs)"

text \<open>
  Lines 183 to 207 of \<^verbatim>\<open>prune_boxes\<close>, which touch no file: which versions stay in
  the manifest and which files go.
\<close>

definition prune_selection ::
  "path \<Rightarrow> box_file_dict \<Rightarrow> int \<Rightarrow> error + (version_entry list \<times> box_to_prune list)" where
  "prune_selection box_dir box_file_dict n =
     (case collect_versions (versions box_file_dict) [] of
        Inl e \<Rightarrow> Inl e
      | Inr version_nums \<Rightarrow>
          let keep_versions = py_slice_to (rev (sort version_nums)) n
          in partition_versions box_dir keep_versions (versions box_file_dict) [] [])"

definition prune_boxes ::
  "json_loader \<Rightarrow> json_dumper \<Rightarrow> filesystem \<Rightarrow> prune_args \<Rightarrow> unit run" where
  "prune_boxes json_load json_dump fs args =
     (let box_dir = get_box_dir_path (args_box args);
          box_json_filename = get_box_json_path (args_box args)
      in if \<not> os_path_exists fs box_json_filename
         then (Inl (Box_json_missing box_json_filename), [])
         else
           bind_run fs (read_file fs box_json_filename) (\<lambda>text fs.
           case json_load text of
             None \<Rightarrow> (Inl ValueError, [])
           | Some box_file_dict \<Rightarrow>
           case prune_selection box_dir box_file_dict (args_n args) of
             Inl e \<Rightarrow> (Inl e, [])
           | Inr (versions_to_keep, boxes_to_prune) \<Rightarrow>
           bind_run fs
             (write_file fs box_json_filename
                (json_dump (box_file_dict\<lparr>versions := versions_to_keep\<rparr>)))
             (\<lambda>u fs. remove_boxes fs boxes_to_prune)))"

section \<open>The checksum: \<^verbatim>\<open>sha1_file\<close>\<close>

subsection \<open>SHA-1\<close>

text \<open>
  \<^verbatim>\<open>hashlib.sha1\<close> is the Secure Hash Algorithm 1 of FIPS 180: the message is padded
  to a multiple of 64 bytes and folded block by block into five 32-bit words.
\<close>

definition be_word32 :: "byte list \<Rightarrow> 32 word" where
  "be_word32 bs = foldl (\<lambda>acc b. push_bit 8 acc OR ucast b) 0 bs"

definition word32_bytes :: "32 word \<Rightarrow> byte list" where
  "word32_bytes w = [ucast (drop_bit 24 w), ucast (drop_bit 16 w), ucast (drop_bit 8 w), ucast w]"

definition word64_bytes :: "64 word \<Rightarrow> byte list" where
  "word64_bytes w = map (\<lambda>i. ucast (drop_bit (8 * i) w)) [7, 6, 5, 4, 3, 2, 1, 0]"

text \<open>
  The padding of a message of \<open>n\<close> bytes: the byte \<^verbatim>\<open>0x80\<close>, zeros up to 56 modulo 64, and
  the length of the message in bits as 64 bits, the most significant byte first.
\<close>

definition sha1_tail :: "nat \<Rightarrow> byte list" where
  "sha1_tail n =
     [0x80] @ replicate ((119 - n mod 64) mod 64) 0 @ word64_bytes (word_of_nat (8 * n))"

definition sha1_pad :: "byte list \<Rightarrow> byte list" where
  "sha1_pad msg = msg @ sha1_tail (length msg)"

fun chunks :: "nat \<Rightarrow> 'a list \<Rightarrow> 'a list list" where
  "chunks k xs = (if k = 0 \<or> xs = [] then [] else take k xs # chunks k (drop k xs))"

declare chunks.simps [simp del]

text \<open>The message schedule, the most recent word first.\<close>

fun sha1_schedule :: "nat \<Rightarrow> 32 word list \<Rightarrow> 32 word list" where
  "sha1_schedule 0 ws = ws"
| "sha1_schedule (Suc k) ws =
     sha1_schedule k (word_rotl 1 (ws ! 2 XOR ws ! 7 XOR ws ! 13 XOR ws ! 15) # ws)"

type_synonym sha1_state = "32 word \<times> 32 word \<times> 32 word \<times> 32 word \<times> 32 word"

definition sha1_f :: "nat \<Rightarrow> 32 word \<Rightarrow> 32 word \<Rightarrow> 32 word \<Rightarrow> 32 word" where
  "sha1_f t b c d =
     (if t < 20 then (b AND c) OR (NOT b AND d)
      else if t < 40 then b XOR c XOR d
      else if t < 60 then (b AND c) OR (b AND d) OR (c AND d)
      else b XOR c XOR d)"

definition sha1_k :: "nat \<Rightarrow> 32 word" where
  "sha1_k t =
     (if t < 20 then 0x5A827999 else if t < 40 then 0x6ED9EBA1
      else if t < 60 then 0x8F1BBCDC else 0xCA62C1D6)"

fun sha1_rounds :: "nat \<Rightarrow> 32 word list \<Rightarrow> sha1_state \<Rightarrow> sha1_state" where
  "sha1_rounds t [] s = s"
| "sha1_rounds t (w # ws) (a, b, c, d, e) =
     sha1_rounds (Suc t) ws
       (word_rotl 5 a + sha1_f t b c d + e + sha1_k t + w, a, word_rotl 30 b, c, d)"

definition sha1_block :: "sha1_state \<Rightarrow> byte list \<Rightarrow> sha1_state" where
  "sha1_block s block =
     (case s of (h0, h1, h2, h3, h4) \<Rightarrow>
        case sha1_rounds 0 (rev (sha1_schedule 64 (rev (map be_word32 (chunks 4 block))))) s of
          (a, b, c, d, e) \<Rightarrow> (h0 + a, h1 + b, h2 + c, h3 + d, h4 + e))"

definition sha1_init :: sha1_state where
  "sha1_init = (0x67452301, 0xEFCDAB89, 0x98BADCFE, 0x10325476, 0xC3D2E1F0)"

definition sha1_digest_bytes :: "sha1_state \<Rightarrow> byte list" where
  "sha1_digest_bytes s =
     (case s of (h0, h1, h2, h3, h4) \<Rightarrow> concat (map word32_bytes [h0, h1, h2, h3, h4]))"

text \<open>The digest of a whole message.\<close>

definition sha1 :: "byte list \<Rightarrow> byte list" where
  "sha1 msg = sha1_digest_bytes (foldl sha1_block sha1_init (chunks 64 (sha1_pad msg)))"

definition hex_digit :: "nat \<Rightarrow> char" where
  "hex_digit d = (if d < 10 then char_of (48 + d) else char_of (87 + d))"

definition hexlify :: "byte list \<Rightarrow> string" where
  "hexlify bs = concat (map (\<lambda>b. [hex_digit (unat b div 16), hex_digit (unat b mod 16)]) bs)"

subsection \<open>The hash object and the loop over the blocks of the file\<close>

text \<open>
  A hash object of \<^verbatim>\<open>hashlib\<close> works on a stream: it keeps the five words reached
  after the whole blocks fed so far, the bytes of the block that is not complete yet,
  and the number of bytes fed. \<^verbatim>\<open>update\<close> folds in every block that has become
  complete; \<^verbatim>\<open>hexdigest\<close> pads the pending bytes, folds them in and writes the five
  words in lowercase hexadecimal.
\<close>

record hasher =
  chaining :: sha1_state
  pending :: "byte list"
  fed :: nat

definition hashlib_sha1 :: hasher where
  "hashlib_sha1 = \<lparr>chaining = sha1_init, pending = [], fed = 0\<rparr>"

definition hasher_update :: "hasher \<Rightarrow> byte list \<Rightarrow> hasher" where
  "hasher_update hasher buf =
     (let bytes = pending hasher @ buf;
          whole = length bytes - length bytes mod 64
      in \<lparr>chaining = foldl sha1_block (chaining hasher) (chunks 64 (take whole bytes)),
          pending = drop whole bytes,
          fed = fed hasher + length buf\<rparr>)"

definition hasher_hexdigest :: "hasher \<Rightarrow> string" where
  "hasher_hexdigest hasher =
     hexlify (sha1_digest_bytes
       (foldl sha1_block (chaining hasher)
          (chunks 64 (pending hasher @ sha1_tail (fed hasher)))))"

text \<open>
  The \<^verbatim>\<open>while\<close> loop of \<^verbatim>\<open>sha1_file\<close>. The open file is the list of the bytes not read
  yet: \<^verbatim>\<open>read(block_size)\<close> returns the first \<^verbatim>\<open>block_size\<close> of them (fewer at the end
  of the file) and leaves the rest.
\<close>

function sha1_file_loop :: "nat \<Rightarrow> byte list \<Rightarrow> byte list \<Rightarrow> hasher \<Rightarrow> hasher" where
  "sha1_file_loop block_size file_to_hash buf hasher =
     (if length buf > 0
      then sha1_file_loop block_size (drop block_size file_to_hash)
             (take block_size file_to_hash) (hasher_update hasher buf)
      else hasher)"
  by pat_completeness auto
termination
  by (relation "measure (\<lambda>(block_size, file_to_hash, buf, hasher).
        2 * length file_to_hash + (if buf = [] then 0 else 1))") auto

declare sha1_file_loop.simps [simp del]

text \<open>\<^verbatim>\<open>sha1_file\<close>, with the block size as a parameter.\<close>

definition sha1_file_blocks :: "nat \<Rightarrow> filesystem \<Rightarrow> path \<Rightarrow> string run" where
  "sha1_file_blocks block_size fs filename =
     (case nodes fs filename of
        Some (File m content) \<Rightarrow>
          (Inr (hasher_hexdigest
                  (sha1_file_loop block_size (drop block_size content)
                     (take block_size content) hashlib_sha1)), [])
      | _ \<Rightarrow> (Inl (IOError filename), []))"

definition sha1_file :: "filesystem \<Rightarrow> path \<Rightarrow> string run" where
  "sha1_file fs filename = sha1_file_blocks 65536 fs filename"

section \<open>Publishing: \<^verbatim>\<open>update_box_json\<close>, \<^verbatim>\<open>update_box_list\<close>, \<^verbatim>\<open>set_up_build_directory\<close>\<close>

text \<open>The loop of \<^verbatim>\<open>update_box_json\<close> that finds the latest version number.\<close>

fun latest_version :: "version_entry list \<Rightarrow> int \<Rightarrow> error + int" where
  "latest_version [] latest_version_n = Inr latest_version_n"
| "latest_version (v # vs) latest_version_n =
     (case py_int (version v) of
        Inl e \<Rightarrow> Inl e
      | Inr version_n \<Rightarrow>
          latest_version vs (if version_n > latest_version_n then version_n else latest_version_n))"

text \<open>
  The dictionary \<^verbatim>\<open>new_version\<close> of \<^verbatim>\<open>update_box_json\<close>: the number is written as
  a string ("Vagrant expects the version number to be quoted").
\<close>

definition new_version :: "int \<Rightarrow> string \<Rightarrow> string \<Rightarrow> version_entry" where
  "new_version new_version_n box_url box_sha1 =
     \<lparr>version = JString (py_str new_version_n),
      providers =
        [\<lparr>provider_name = ''virtualbox'', url = box_url,
          checksum_type = ''sha1'', checksum = box_sha1\<rparr>]\<rparr>"

definition update_box_json ::
  "json_loader \<Rightarrow> json_dumper \<Rightarrow> filesystem \<Rightarrow> path \<Rightarrow> string \<Rightarrow> string \<Rightarrow> string \<Rightarrow> string
     \<Rightarrow> unit run" where
  "update_box_json json_load json_dump fs box_json_filename box_name box_description box_url box_sha1 =
     bind_run fs
       (if \<not> os_path_isfile fs box_json_filename
        then (Inr (\<lparr>description = box_description, name = box_name, versions = []\<rparr>, 1), [])
        else
          bind_run fs (read_file fs box_json_filename) (\<lambda>text fs.
          case json_load text of
            None \<Rightarrow> (Inl ValueError, [])
          | Some box_file_dict \<Rightarrow>
          case latest_version (versions box_file_dict) 0 of
            Inl e \<Rightarrow> (Inl e, [])
          | Inr latest_version_n \<Rightarrow> (Inr (box_file_dict, latest_version_n + 1), [])))
       (\<lambda>(box_file_dict, new_version_n) fs.
          write_file fs box_json_filename
            (json_dump (box_file_dict\<lparr>versions :=
               versions box_file_dict @ [new_version new_version_n box_url box_sha1]\<rparr>)))"




section \<open>Notions used in the properties\<close>



text \<open>A file system without the nodes at some paths.\<close>

definition remove_paths :: "filesystem \<Rightarrow> path list \<Rightarrow> filesystem" where
  "remove_paths fs ps = fs\<lparr>nodes := (\<lambda>q. if q \<in> set ps then None else nodes fs q)\<rparr>"


text \<open>A hash object that has been fed the bytes of a message, in any number of pieces.\<close>

definition has_fed :: "hasher \<Rightarrow> byte list \<Rightarrow> bool" where
  "has_fed hasher msg =
     (let whole = length msg - length msg mod 64
      in chaining hasher = foldl sha1_block sha1_init (chunks 64 (take whole msg))
         \<and> pending hasher = drop whole msg \<and> fed hasher = length msg)"

text \<open>The exceptions of the library calls, as opposed to the five of the script itself.\<close>

definition benign :: "error \<Rightarrow> bool" where
  "benign e =
     (case e of ValueError \<Rightarrow> True | IndexError \<Rightarrow> True | IOError p \<Rightarrow> True
      | OSError p \<Rightarrow> True | ShutilError a b \<Rightarrow> True | _ \<Rightarrow> False)"

section \<open>Example data\<close>

text \<open>
  Concrete inputs for the examples below: a manifest with the versions 3, 1 and 2 (in
  this order), a file system that holds it with the three files and the directory
  of the build templates (readable by its owner only), and stand-ins for
  the two JSON functions (the loader reads the text \<^verbatim>\<open>{}\<close> as the example manifest
  and the text \<^verbatim>\<open>[]\<close> as the manifest of the box with the empty name; the dumper
  writes one byte for each version of a document).
\<close>

definition example_provider :: "string \<Rightarrow> provider" where
  "example_provider u =
     \<lparr>provider_name = ''virtualbox'', url = u, checksum_type = ''sha1'', checksum = ''00''\<rparr>"

definition example_dict :: box_file_dict where
  "example_dict =
     \<lparr>description = ''base image'', name = ''foo'',
      versions =
        [\<lparr>version = JString ''3'', providers = [example_provider ''http://h/foo/c.box'']\<rparr>,
         \<lparr>version = JString ''1'', providers = [example_provider ''http://h/foo/a.box'']\<rparr>,
         \<lparr>version = JString ''2'', providers = [example_provider ''http://h/foo/b.box'']\<rparr>]\<rparr>"

text \<open>
  A manifest of the box with the empty name, whose one version has a URL that ends
  in \<^verbatim>\<open>/.json\<close>, and a file system that holds it.
\<close>

definition unnamed_dict :: box_file_dict where
  "unnamed_dict =
     \<lparr>description = ''base image'', name = [],
      versions = [\<lparr>version = JString ''1'', providers = [example_provider ''http://h/.json'']\<rparr>]\<rparr>"


definition example_load :: json_loader where
  "example_load text =
     (if text = [0x7B, 0x7D] then Some example_dict
      else if text = [0x5B, 0x5D] then Some unnamed_dict
      else None)"

definition example_dump :: json_dumper where
  "example_dump d = map (\<lambda>v. of_nat (length (providers v))) (versions d)"

definition example_fs :: filesystem where
  "example_fs =
     \<lparr>nodes =
        [''/opt/vagrant_boxes/boxes/foo.json'' \<mapsto> File 420 [0x7B, 0x7D],
         ''/opt/vagrant_boxes/boxes/foo'' \<mapsto> Directory 493,
         ''/opt/vagrant_boxes/boxes/foo/a.box'' \<mapsto> File 420 [1],
         ''/opt/vagrant_boxes/boxes/foo/b.box'' \<mapsto> File 420 [2],
         ''/opt/vagrant_boxes/boxes/foo/c.box'' \<mapsto> File 420 [3],
         ''/opt/vagrant_boxes/build_templates'' \<mapsto> Directory 448],
      umask = 18, cwd = ''/''\<rparr>"

section \<open>Properties\<close>

subsection \<open>Runs\<close>

lemma bind_run_Inl [simp]: "bind_run fs (Inl e, trace) f = (Inl e, trace)"
  by (simp add: bind_run_def)

lemma bind_run_Inr [simp]:
  "bind_run fs (Inr x, trace) f = (case f x (final fs trace) of (r, trace') \<Rightarrow> (r, trace @ trace'))"
  by (simp add: bind_run_def)

lemma final_Nil [simp]: "final fs [] = fs"
  by (simp add: final_def)

lemma final_Cons [simp]: "final fs (s # trace) = final s trace"
  by (simp add: final_def)

lemma final_append [simp]: "final fs (trace @ trace') = final (final fs trace) trace'"
  by (simp add: final_def)

subsection \<open>Naming\<close>


text \<open>
  Claim C10. The map from a box name to its escaped directory name replaces every
  \<^verbatim>\<open>/\<close> by \<^verbatim>\<open>_\<close>, so it is not injective, and neither are the artifact directory path
  and the manifest path derived from it: the distinct names \<^verbatim>\<open>a/b\<close> and \<^verbatim>\<open>a_b\<close> get
  the same directory and the same manifest file.
\<close>

theorem box_naming_not_injective:
  "''a/b'' \<noteq> ''a_b''
   \<and> escape_box_name ''a/b'' = escape_box_name ''a_b''
   \<and> get_box_dir_path ''a/b'' = get_box_dir_path ''a_b''
   \<and> get_box_json_path ''a/b'' = get_box_json_path ''a_b''
   \<and> \<not> inj escape_box_name \<and> \<not> inj get_box_dir_path \<and> \<not> inj get_box_json_path"
proof -
  have ne: "''a/b'' \<noteq> ''a_b''" by simp
  have e: "escape_box_name ''a/b'' = escape_box_name ''a_b''"
    by (simp add: escape_box_name_def str_replace_def)
  have d: "get_box_dir_path ''a/b'' = get_box_dir_path ''a_b''"
    by (simp add: get_box_dir_path_def get_box_dir_name_def e)
  have j: "get_box_json_path ''a/b'' = get_box_json_path ''a_b''"
    by (simp add: get_box_json_path_def d)
  have "\<not> inj escape_box_name" using ne e by (auto dest: injD)
  moreover have "\<not> inj get_box_dir_path" using ne d by (auto dest: injD)
  moreover have "\<not> inj get_box_json_path" using ne j by (auto dest: injD)
  ultimately show ?thesis using ne e d j by blast
qed

lemma escape_box_name_no_slash: "CHR ''/'' \<notin> set (escape_box_name b)"
  by (auto simp: escape_box_name_def str_replace_def)

lemma get_box_dir_path_eq:
  "get_box_dir_path b = ''/opt/vagrant_boxes/boxes/'' @ escape_box_name b"
proof -
  have "\<not> startswith (escape_box_name b) ''/''"
    using escape_box_name_no_slash [of b]
    by (cases "escape_box_name b") (auto simp: startswith_def)
  then show ?thesis
    by (simp add: get_box_dir_path_def get_box_dir_name_def os_path_join_def INSTALL_DIR_def
        startswith_def endswith_def suffix_to_prefix)
qed

lemma get_box_json_path_eq:
  "get_box_json_path b = ''/opt/vagrant_boxes/boxes/'' @ escape_box_name b @ ''.json''"
  by (simp add: get_box_json_path_def get_box_dir_path_eq)


subsection \<open>Pruning a box that has no manifest\<close>

text \<open>
  Claim C6. Pruning a box whose manifest file does not exist raises the exception
  "Box JSON file ... does not exist", and the run has no mutation: no file is deleted
  and no manifest is written.
\<close>

theorem prune_missing_manifest:
  assumes "\<not> os_path_exists fs (get_box_json_path (args_box args))"
  shows "prune_boxes json_load json_dump fs args
           = (Inl (Box_json_missing (get_box_json_path (args_box args))), [])"
  using assms by (simp add: prune_boxes_def)

theorem prune_missing_manifest_witness:
  "\<not> os_path_exists example_fs (get_box_json_path ''foo/bar'')
   \<and> prune_boxes example_load example_dump example_fs \<lparr>args_box = ''foo/bar'', args_n = 2\<rparr>
       = (Inl (Box_json_missing ''/opt/vagrant_boxes/boxes/foo_bar.json''), [])"
proof -
  have p: "get_box_json_path ''foo/bar'' = ''/opt/vagrant_boxes/boxes/foo_bar.json''"
    by (simp add: get_box_json_path_eq escape_box_name_def str_replace_def)
  have h: "\<not> os_path_exists example_fs (get_box_json_path (args_box \<lparr>args_box = ''foo/bar'', args_n = 2\<rparr>))"
    by (simp add: p os_path_exists_def example_fs_def)
  show ?thesis
    using h prune_missing_manifest [OF h, of example_load example_dump] by (simp add: p)
qed

subsection \<open>Appending a version\<close>

lemma latest_version_fold:
  "map (\<lambda>v. py_int (version v)) vs = map Inr nums \<Longrightarrow>
   latest_version vs k = Inr (fold max nums k)"
proof (induction vs arbitrary: k nums)
  case Nil
  then show ?case by simp
next
  case (Cons v vs)
  then obtain i rest where nums: "nums = i # rest" and v: "py_int (version v) = Inr i"
    and rest: "map (\<lambda>v. py_int (version v)) vs = map Inr rest"
    by (cases nums) auto
  have "(if i > k then i else k) = max i k" by simp
  then show ?case using Cons.IH [OF rest] by (simp add: v nums)
qed

lemma latest_version_Max:
  assumes "map (\<lambda>v. py_int (version v)) vs = map Inr nums"
  shows "latest_version vs k = Inr (Max (insert k (set nums)))"
proof -
  have "Max (set (k # nums)) = fold max nums k" by (rule Max.set_eq_fold)
  then show ?thesis using latest_version_fold [OF assms, of k] by simp
qed

lemma latest_version_positive:
  assumes "map (\<lambda>v. py_int (version v)) vs = map Inr nums" and "\<forall>i\<in>set nums. 0 < i"
  shows "latest_version vs 0 = Inr (if nums = [] then 0 else Max (set nums))"
proof (cases "nums = []")
  case True
  then show ?thesis using latest_version_Max [OF assms(1), of 0] by simp
next
  case False
  then have "Max (insert 0 (set nums)) = max 0 (Max (set nums))" by simp
  moreover have "Max (set nums) \<in> set nums" using False by (intro Max_in) auto
  then have "0 < Max (set nums)" using assms(2) by blast
  ultimately show ?thesis using False latest_version_Max [OF assms(1), of 0] by simp
qed


lemma update_box_json_present:
  assumes "nodes fs p = Some (File m text)" and "jl text = Some d"
    and "latest_version (versions d) 0 = Inr k"
  shows "update_box_json jl jd fs p nm desc u s
           = write_file fs p (jd (d\<lparr>versions := versions d @ [new_version (k + 1) u s]\<rparr>))"
  using assms
  by (simp add: update_box_json_def os_path_isfile_def read_file_def split: prod.splits)






lemma example_latest_version: "latest_version (versions example_dict) 0 = Inr 3"
  by code_simp

lemma example_manifest_node:
  "nodes example_fs ''/opt/vagrant_boxes/boxes/foo.json'' = Some (File 420 [0x7B, 0x7D])"
  by (simp add: example_fs_def)

lemma example_load_manifest: "example_load [0x7B, 0x7D] = Some example_dict"
  by (simp add: example_load_def)


text \<open>
  Claim C7. Appending to a manifest that is present (a file whose text loads, all of
  whose versions are integers) leaves its name, its description and its versions as
  they are and adds one entry at the end of the versions; the name and the
  description the caller passes are not used. The write of the manifest is the only
  mutation.
\<close>

theorem append_to_present_ledger:
  assumes "nodes fs p = Some (File m text)" and "jl text = Some d"
    and "latest_version (versions d) 0 = Inr k"
  shows "update_box_json jl jd fs p nm desc u s
           = (Inr (),
              [fs\<lparr>nodes := (nodes fs)(p \<mapsto>
                 File m (jd (d\<lparr>versions := versions d @ [new_version (k + 1) u s]\<rparr>)))\<rparr>])
         \<and> update_box_json jl jd fs p nm' desc' u s = update_box_json jl jd fs p nm desc u s
         \<and> name (d\<lparr>versions := versions d @ [new_version (k + 1) u s]\<rparr>) = name d
         \<and> description (d\<lparr>versions := versions d @ [new_version (k + 1) u s]\<rparr>) = description d
         \<and> butlast (versions (d\<lparr>versions := versions d @ [new_version (k + 1) u s]\<rparr>)) = versions d"
proof -
  have "update_box_json jl jd fs p a b u s
          = write_file fs p (jd (d\<lparr>versions := versions d @ [new_version (k + 1) u s]\<rparr>))" for a b
    using update_box_json_present [of fs p m "text" jl d k jd a b u s] assms by simp
  then show ?thesis using assms(1) by (simp add: write_file_def)
qed

theorem append_to_present_ledger_witness:
  "nodes example_fs ''/opt/vagrant_boxes/boxes/foo.json'' = Some (File 420 [0x7B, 0x7D])
   \<and> example_load [0x7B, 0x7D] = Some example_dict
   \<and> latest_version (versions example_dict) 0 = Inr 3
   \<and> update_box_json example_load example_dump example_fs ''/opt/vagrant_boxes/boxes/foo.json''
        ''other name'' ''other description'' ''http://h/foo/d.box'' ''aa''
      = (Inr (),
         [example_fs\<lparr>nodes := (nodes example_fs)(''/opt/vagrant_boxes/boxes/foo.json'' \<mapsto>
            File 420 (example_dump (example_dict\<lparr>versions :=
              versions example_dict @ [new_version 4 ''http://h/foo/d.box'' ''aa'']\<rparr>)))\<rparr>])"
  using append_to_present_ledger [of example_fs "''/opt/vagrant_boxes/boxes/foo.json''" 420
      "[0x7B, 0x7D]" example_load example_dict 3 example_dump "''other name''"
      "''other description''" "''http://h/foo/d.box''" "''aa''"]
    example_manifest_node example_load_manifest example_latest_version
  by simp




subsection \<open>Splitting and joining paths\<close>





lemma startswith_slash: "startswith b ''/'' \<longleftrightarrow> (b \<noteq> [] \<and> hd b = CHR ''/'')"
  by (cases b) (auto simp: startswith_def)

lemma endswith_slash: "endswith a ''/'' \<longleftrightarrow> (a \<noteq> [] \<and> last a = CHR ''/'')"
  by (cases a rule: rev_cases) (auto simp: endswith_def)


lemma os_path_join_after_slash:
  assumes "CHR ''/'' \<notin> set b" and "a \<noteq> []" and "last a = CHR ''/''"
  shows "os_path_join a b = a @ b"
proof -
  have "\<not> startswith b ''/''" using assms(1) by (cases b) (auto simp: startswith_slash)
  then show ?thesis using assms(2,3) by (simp add: os_path_join_def endswith_slash)
qed



subsection \<open>Pruning\<close>




lemma remove_paths_Nil [simp]: "remove_paths fs [] = fs"
  by (simp add: remove_paths_def)



lemma prune_boxes_selection_error:
  assumes "nodes fs (get_box_json_path box) = Some (File m text)" and "jl text = Some d"
    and "prune_selection (get_box_dir_path box) d n = Inl e"
  shows "prune_boxes jl jd fs \<lparr>args_box = box, args_n = n\<rparr> = (Inl e, [])"
  using assms by (simp add: prune_boxes_def os_path_exists_def read_file_def)




text \<open>
  Claim C2. A negative keep count is not treated as 0: \<^verbatim>\<open>versions[0:n]\<close> with a
  negative \<^verbatim>\<open>n\<close> leaves out the last \<^verbatim>\<open>-n\<close> numbers of the sorted list only. For the
  example manifest (versions 3, 1, 2) the count \<^verbatim>\<open>-1\<close> keeps the versions 3 and 2 and
  marks one file, where the count 0 keeps no version and marks all three files.
\<close>

theorem negative_keep_count_example:
  "prune_selection ''/opt/vagrant_boxes/boxes/foo'' example_dict (- 1)
     = Inr ([\<lparr>version = JString ''3'', providers = [example_provider ''http://h/foo/c.box'']\<rparr>,
             \<lparr>version = JString ''2'', providers = [example_provider ''http://h/foo/b.box'']\<rparr>],
            [\<lparr>prune_version = 1, prune_filename = ''/opt/vagrant_boxes/boxes/foo/a.box''\<rparr>])
   \<and> prune_selection ''/opt/vagrant_boxes/boxes/foo'' example_dict 0
     = Inr ([],
            [\<lparr>prune_version = 3, prune_filename = ''/opt/vagrant_boxes/boxes/foo/c.box''\<rparr>,
             \<lparr>prune_version = 1, prune_filename = ''/opt/vagrant_boxes/boxes/foo/a.box''\<rparr>,
             \<lparr>prune_version = 2, prune_filename = ''/opt/vagrant_boxes/boxes/foo/b.box''\<rparr>])"
  by code_simp






lemma foo_dir_path: "get_box_dir_path ''foo'' = ''/opt/vagrant_boxes/boxes/foo''"
  by code_simp














subsection \<open>The checksum\<close>

lemma chunks_Nil [simp]: "chunks k [] = []"
  by (simp add: chunks.simps)

lemma chunks_append:
  assumes "0 < k" and "k dvd length xs"
  shows "chunks k (xs @ ys) = chunks k xs @ chunks k ys"
  using assms
proof (induction "length xs" arbitrary: xs rule: less_induct)
  case less
  show ?case
  proof (cases "xs = []")
    case True
    then show ?thesis by simp
  next
    case False
    then have len: "k \<le> length xs" using less.prems by (auto dest: dvd_imp_le)
    have d: "k dvd length (drop k xs)" using less.prems len by (simp add: dvd_diff_nat)
    have 1: "chunks k (xs @ ys) = take k xs # chunks k (drop k xs @ ys)"
      using False less.prems(1) len by (subst chunks.simps) simp
    have 2: "chunks k (drop k xs @ ys) = chunks k (drop k xs) @ chunks k ys"
      using False less.prems(1) len d by (intro less.hyps) auto
    have 3: "chunks k xs = take k xs # chunks k (drop k xs)"
      using False less.prems(1) by (subst chunks.simps) simp
    show ?thesis by (simp add: 1 2 3)
  qed
qed

lemma has_fed_init: "has_fed hashlib_sha1 []"
  by (simp add: has_fed_def hashlib_sha1_def)

lemma has_fed_update:
  assumes "has_fed hasher msg"
  shows "has_fed (hasher_update hasher buf) (msg @ buf)"
proof -
  define k where "k = length msg - length msg mod 64"
  define bytes where "bytes = drop k msg @ buf"
  define k' where "k' = length bytes - length bytes mod 64"
  have h: "chaining hasher = foldl sha1_block sha1_init (chunks 64 (take k msg))"
    "pending hasher = drop k msg" "fed hasher = length msg"
    using assms by (simp_all add: has_fed_def k_def Let_def)
  have kle: "k \<le> length msg" by (simp add: k_def)
  have kdvd: "64 dvd k" by (simp add: k_def dvd_minus_mod)
  have lenb: "length bytes = length msg - k + length buf" by (simp add: bytes_def)
  have total: "length (msg @ buf) = k + length bytes" using kle by (simp add: lenb)
  have modeq: "length (msg @ buf) mod 64 = length bytes mod 64"
    using kdvd by (simp only: total) (metis mod_add_left_eq dvd_eq_mod_eq_0 add_0)
  have "length bytes mod 64 \<le> length bytes" by simp
  then have K: "length (msg @ buf) - length (msg @ buf) mod 64 = k + k'"
    unfolding modeq unfolding total k'_def by simp
  have split: "take k (msg @ buf) = take k msg" "drop k (msg @ buf) = bytes"
    using kle by (simp_all add: bytes_def)
  have tk: "take (k + k') (msg @ buf) = take k msg @ take k' bytes"
    by (simp only: take_add split)
  have "drop (k + k') (msg @ buf) = drop k' (drop k (msg @ buf))"
    by (simp only: drop_drop add.commute)
  then have dk: "drop (k + k') (msg @ buf) = drop k' bytes"
    by (simp only: split)
  have "64 dvd length (take k msg)" using kdvd kle by simp
  then have ch: "chunks 64 (take k msg @ take k' bytes)
      = chunks 64 (take k msg) @ chunks 64 (take k' bytes)"
    by (intro chunks_append) simp_all
  show ?thesis
    unfolding has_fed_def Let_def K tk dk ch
    by (simp add: hasher_update_def Let_def h bytes_def [symmetric] k'_def [symmetric])
qed

lemma has_fed_hexdigest:
  assumes "has_fed hasher msg"
  shows "hasher_hexdigest hasher = hexlify (sha1 msg)"
proof -
  define k where "k = length msg - length msg mod 64"
  have h: "chaining hasher = foldl sha1_block sha1_init (chunks 64 (take k msg))"
    "pending hasher = drop k msg" "fed hasher = length msg"
    using assms by (simp_all add: has_fed_def k_def Let_def)
  have kle: "k \<le> length msg" by (simp add: k_def)
  have kdvd: "64 dvd k" by (simp add: k_def dvd_minus_mod)
  have "64 dvd length (take k msg)" using kdvd kle by simp
  then have "chunks 64 (take k msg @ (drop k msg @ sha1_tail (length msg)))
      = chunks 64 (take k msg) @ chunks 64 (drop k msg @ sha1_tail (length msg))"
    by (intro chunks_append) simp_all
  then have "chunks 64 (msg @ sha1_tail (length msg))
      = chunks 64 (take k msg) @ chunks 64 (drop k msg @ sha1_tail (length msg))"
    by (simp add: append_assoc [symmetric] del: append_assoc)
  then show ?thesis
    by (simp add: hasher_hexdigest_def sha1_def sha1_pad_def h)
qed

lemma sha1_file_loop_fed:
  "0 < block_size \<Longrightarrow> (buf = [] \<longrightarrow> file_to_hash = []) \<Longrightarrow> has_fed hasher consumed \<Longrightarrow>
   has_fed (sha1_file_loop block_size file_to_hash buf hasher) (consumed @ buf @ file_to_hash)"
proof (induction block_size file_to_hash buf hasher arbitrary: consumed
    rule: sha1_file_loop.induct)
  case (1 block_size file_to_hash buf hasher)
  show ?case
  proof (cases "buf = []")
    case True
    then show ?thesis using "1.prems" by (simp add: sha1_file_loop.simps)
  next
    case False
    have end_of_file: "take block_size file_to_hash = [] \<longrightarrow> drop block_size file_to_hash = []"
      using "1.prems"(1) by (cases file_to_hash) auto
    have "has_fed (hasher_update hasher buf) (consumed @ buf)"
      using "1.prems"(3) by (rule has_fed_update)
    then have "has_fed (sha1_file_loop block_size (drop block_size file_to_hash)
                 (take block_size file_to_hash) (hasher_update hasher buf))
             ((consumed @ buf) @ take block_size file_to_hash @ drop block_size file_to_hash)"
      using False "1.prems"(1) end_of_file by (intro "1.IH") simp_all
    then show ?thesis
      using False by (subst sha1_file_loop.simps) simp
  qed
qed

lemma sha1_file_loop_whole:
  assumes "0 < block_size"
  shows "has_fed (sha1_file_loop block_size (drop block_size content) (take block_size content)
           hashlib_sha1) content"
proof -
  have "take block_size content = [] \<longrightarrow> drop block_size content = []"
    using assms by (cases content) auto
  then show ?thesis
    using sha1_file_loop_fed [OF assms _ has_fed_init, of "take block_size content"
        "drop block_size content"]
    by simp
qed

lemma length_sha1: "length (sha1 msg) = 20"
  by (simp add: sha1_def sha1_digest_bytes_def word32_bytes_def split: prod.splits)

lemma length_hexlify: "length (hexlify bs) = 2 * length bs"
  by (induction bs) (simp_all add: hexlify_def)

lemma hex_digits: "map hex_digit [0..<16] = ''0123456789abcdef''"
  by code_simp

lemma hex_digit_lowercase:
  assumes "d < 16"
  shows "hex_digit d \<in> set ''0123456789abcdef''"
proof -
  have "hex_digit d = map hex_digit [0..<16] ! d" using assms by simp
  also have "\<dots> \<in> set (map hex_digit [0..<16])"
    using assms by (intro nth_mem) simp
  finally show ?thesis by (simp only: hex_digits)
qed

lemma hexlify_lowercase: "set (hexlify bs) \<subseteq> set ''0123456789abcdef''"
proof (induction bs)
  case Nil
  then show ?case by (simp add: hexlify_def)
next
  case (Cons b bs)
  have "unat b < 256" using unsigned_less [of b] by simp
  then have "unat b div 16 < 16" by simp
  then have hi: "hex_digit (unat b div 16) \<in> set ''0123456789abcdef''"
    by (rule hex_digit_lowercase)
  have lo: "hex_digit (unat b mod 16) \<in> set ''0123456789abcdef''"
    by (rule hex_digit_lowercase) simp
  have "hexlify (b # bs) = hex_digit (unat b div 16) # hex_digit (unat b mod 16) # hexlify bs"
    by (simp add: hexlify_def)
  then show ?case using hi lo Cons.IH by (simp only: set_simps insert_subset)
qed

text \<open>
  Claim C8. For a file that can be read, \<^verbatim>\<open>sha1_file\<close> returns the SHA-1 digest of
  the whole content of the file in lowercase hexadecimal (40 digits), and the block
  size does not matter: for every positive block size, feeding the hash object the
  content block by block gives the digest that one \<^verbatim>\<open>update\<close> with the whole content
  gives, the digest of the content.
\<close>

theorem sha1_file_digest:
  assumes "nodes fs filename = Some (File m content)" and "0 < block_size"
  shows "sha1_file_blocks block_size fs filename = (Inr (hexlify (sha1 content)), [])
       \<and> sha1_file fs filename = (Inr (hexlify (sha1 content)), [])
       \<and> sha1_file_blocks block_size fs filename = sha1_file fs filename
       \<and> hasher_hexdigest (hasher_update hashlib_sha1 content) = hexlify (sha1 content)
       \<and> length (hexlify (sha1 content)) = 40
       \<and> set (hexlify (sha1 content)) \<subseteq> set ''0123456789abcdef''"
proof -
  have blocks: "sha1_file_blocks k fs filename = (Inr (hexlify (sha1 content)), [])" if "0 < k" for k
    using assms(1) has_fed_hexdigest [OF sha1_file_loop_whole [OF that, of content]]
    by (simp add: sha1_file_blocks_def)
  have "sha1_file fs filename = (Inr (hexlify (sha1 content)), [])"
    unfolding sha1_file_def by (rule blocks) simp
  moreover have "length (hexlify (sha1 content)) = 40"
    by (simp add: length_hexlify length_sha1)
  moreover have "hasher_hexdigest (hasher_update hashlib_sha1 content) = hexlify (sha1 content)"
    using has_fed_hexdigest [OF has_fed_update [OF has_fed_init, of content]] by simp
  ultimately show ?thesis using blocks [OF assms(2)] hexlify_lowercase by simp
qed

lemma example_a_box:
  "nodes example_fs ''/opt/vagrant_boxes/boxes/foo/a.box'' = Some (File 420 [1])"
  by (simp add: example_fs_def)

theorem sha1_file_digest_witness:
  "nodes example_fs ''/opt/vagrant_boxes/boxes/foo/a.box'' = Some (File 420 [1])
   \<and> (0::nat) < 3
   \<and> sha1_file_blocks 3 example_fs ''/opt/vagrant_boxes/boxes/foo/a.box''
       = (Inr (hexlify (sha1 [1])), [])
   \<and> sha1_file example_fs ''/opt/vagrant_boxes/boxes/foo/a.box'' = (Inr (hexlify (sha1 [1])), [])"
proof -
  have pos: "(0::nat) < 3" by simp
  show ?thesis
    using sha1_file_digest [OF example_a_box pos] example_a_box by simp
qed

subsection \<open>The guards of the paths\<close>








lemma write_file_ok:
  "write_file fs p d = (Inr u, trace) \<Longrightarrow> \<exists>fs'. trace = [fs']"
  by (auto simp: write_file_def split: option.splits node.splits)













lemma benign_not_guard [simp]:
  "\<not> benign (Box_dir_outside x y)" "\<not> benign (Target_file_outside x y)"
  "\<not> benign (Build_dir_outside x y)"
  by (simp_all add: benign_def)


























end
